theory Spec2Isabelle
  imports Complex_Main "HOL-Library.Sublist"
begin

section \<open>Calendar instants, as the date library exposes them\<close>

text \<open>
  The component reads the clock and does date arithmetic through the \<^verbatim>\<open>moment\<close>
  library, a dependency that is not part of the repository. An instant is
  modelled by the calendar fields the library's accessors return
  (\<^verbatim>\<open>year()\<close>, \<^verbatim>\<open>month()\<close> counted from 0, \<^verbatim>\<open>date()\<close> counted from 1) and the
  milliseconds elapsed since midnight. The calendar is the proleptic Gregorian
  one in a zone whose offset does not change (no daylight-saving shift).
\<close>

record moment =
  year :: int
  month :: int
  date :: int
  time_ms :: int

definition isLeapYear :: "int \<Rightarrow> bool" where
  "isLeapYear y = ((y mod 4 = 0 \<and> y mod 100 \<noteq> 0) \<or> y mod 400 = 0)"

text \<open>\<^verbatim>\<open>daysInMonth(year, month)\<close> of the library, for a month already reduced to 0..11.\<close>

definition daysInMonth :: "int \<Rightarrow> int \<Rightarrow> int" where
  "daysInMonth y m =
     (if m = 1 then (if isLeapYear y then 29 else 28) else 31 - ((m mod 7) mod 2))"

definition valid_moment :: "moment \<Rightarrow> bool" where
  "valid_moment m =
     (0 \<le> month m \<and> month m < 12 \<and> 1 \<le> date m \<and> date m \<le> daysInMonth (year m) (month m)
      \<and> 0 \<le> time_ms m \<and> time_ms m < 86400000)"

text \<open>Days from 1 January 1970 to 1 January of year \<open>y\<close>.\<close>

definition days_before_year :: "int \<Rightarrow> int" where
  "days_before_year y =
     365 * (y - 1970) + ((y - 1) div 4 - (y - 1) div 100 + (y - 1) div 400) - 477"

text \<open>Days from 1 January to the first day of month \<open>m\<close> (0..11) of a common year.\<close>

definition days_before_month :: "int \<Rightarrow> int" where
  "days_before_month m =
     (if m = 0 then 0 else if m = 1 then 31 else if m = 2 then 59 else if m = 3 then 90
      else if m = 4 then 120 else if m = 5 then 151 else if m = 6 then 181
      else if m = 7 then 212 else if m = 8 then 243 else if m = 9 then 273
      else if m = 10 then 304 else 334)"

text \<open>
  Months are numbered consecutively: month \<open>m\<close> of year \<open>y\<close> has index \<open>12 * y + m\<close>.
  \<open>month_start k\<close> is the day number (from 1 January 1970) of the first day of the
  month of index \<open>k\<close>.
\<close>

definition month_index :: "moment \<Rightarrow> int" where
  "month_index m = 12 * year m + month m"

definition month_start :: "int \<Rightarrow> int" where
  "month_start k =
     (let y = k div 12; m = k mod 12
      in days_before_year y + days_before_month m + (if isLeapYear y \<and> 2 \<le> m then 1 else 0))"

text \<open>\<^verbatim>\<open>valueOf()\<close>: milliseconds since the epoch.\<close>

definition valueOf :: "moment \<Rightarrow> int" where
  "valueOf m = (month_start (month_index m) + date m - 1) * 86400000 + time_ms m"

text \<open>
  \<^verbatim>\<open>add(n, 'months')\<close> (and \<^verbatim>\<open>subtract\<close>, with \<open>n\<close> negated): the month index moves by
  \<open>n\<close> and the day of the month is clamped to the length of the target month.
\<close>

definition add_months :: "moment \<Rightarrow> int \<Rightarrow> moment" where
  "add_months m n =
     (let k = month_index m + n; y = k div 12; mo = k mod 12
      in m\<lparr>year := y, month := mo, date := min (date m) (daysInMonth y mo)\<rparr>)"

text \<open>\<^verbatim>\<open>subtract(n, 'days')\<close>: \<open>n\<close> calendar days back, the time of day kept.\<close>

definition prev_day :: "moment \<Rightarrow> moment" where
  "prev_day m =
     (if 1 < date m then m\<lparr>date := date m - 1\<rparr>
      else (let k = month_index m - 1; y = k div 12; mo = k mod 12
            in m\<lparr>year := y, month := mo, date := daysInMonth y mo\<rparr>))"

fun subtract_days :: "moment \<Rightarrow> nat \<Rightarrow> moment" where
  "subtract_days m 0 = m"
| "subtract_days m (Suc n) = subtract_days (prev_day m) n"

text \<open>
  \<^verbatim>\<open>moment(moment().format('YYYY-MM-DD'))\<close>: midnight of the current calendar day
  (for years that print with four digits).
\<close>

definition startOfDay :: "moment \<Rightarrow> moment" where
  "startOfDay m = m\<lparr>time_ms := 0\<rparr>"

section \<open>The query and its response\<close>

record Domain =
  name :: string
  expires :: string

text \<open>A node of the response carries the selected fields; the list keeps two of them.\<close>

record Node = Domain +
  node_id :: string
  level :: int
  owner :: string
  operators :: "(string \<times> string) list"
  parentOwner :: "string option"

record Edge =
  node :: Node

record Page =
  startCursor :: string
  endCursor :: string
  hasNextPage :: bool
  hasPreviousPage :: bool

text \<open>\<^verbatim>\<open>result.data.domains\<close>: the edges and the page information of one response.\<close>

record DomainConnection =
  edges :: "Edge list"
  pageInfo :: Page

text \<open>The \<^verbatim>\<open>variables\<close> object of the query (the nested objects flattened).\<close>

record Variables =
  after :: "string option"
  first :: int
  where_validity :: string
  where_level_equalTo :: int
  where_expiresAtUtc_greaterThan :: moment
  where_expiresAtUtc_lessThan :: moment
  order_field :: string
  order_direction :: string

datatype js_error = QueryError string | TypeError string

text \<open>
  The promise returned by \<^verbatim>\<open>client.query\<close> either rejects, or resolves with a result
  whose \<^verbatim>\<open>data\<close> is present (\<open>Some\<close>) or missing (\<open>None\<close>: the test
  \<^verbatim>\<open>result && result.data\<close> fails).
\<close>

datatype query_outcome = Rejects js_error | Resolves "DomainConnection option"

type_synonym client = "Variables \<Rightarrow> query_outcome"

section \<open>Component state and effects\<close>

datatype console_entry = ConsoleLog string "string option" | ConsoleError js_error

text \<open>
  The two state variables of the component, with the two effects the code has on the
  outside: lines written to the console and queries sent. \<open>domains = None\<close> is
  the JavaScript value \<^verbatim>\<open>undefined\<close>, which \<^verbatim>\<open>setDomains\<close> can receive;
  \<open>pageInfo = None\<close> is \<^verbatim>\<open>null\<close>.
\<close>

record state =
  domains :: "Domain list option"
  pageInfo :: "Page option"
  console :: "console_entry list"
  requests :: "Variables list"

definition initial_state :: state where
  "initial_state = \<lparr>domains = Some [], pageInfo = None, console = [], requests = []\<rparr>"

definition variables :: "moment \<Rightarrow> moment \<Rightarrow> string option \<Rightarrow> Variables" where
  "variables startDate endDate aft =
     \<lparr>after = aft, first = 50,
      where_validity = ''EXPIRED'', where_level_equalTo = 2,
      where_expiresAtUtc_greaterThan = startDate, where_expiresAtUtc_lessThan = endDate,
      order_field = ''EXPIRES_AT'', order_direction = ''DESC''\<rparr>"

definition getDomains ::
  "client \<Rightarrow> moment \<Rightarrow> moment \<Rightarrow> string option \<Rightarrow> state \<Rightarrow> query_outcome \<times> state" where
  "getDomains client_query startDate endDate aft s =
     (let v = variables startDate endDate aft
      in (client_query v, s\<lparr>requests := requests s @ [v]\<rparr>))"

text \<open>
  \<open>fetchData\<close>: the promise it returns is always fulfilled, with a list or with
  \<^verbatim>\<open>undefined\<close> (\<open>None\<close>); \<open>now\<close> is the clock reading of \<^verbatim>\<open>moment()\<close>.
\<close>

definition fetchData ::
  "client \<Rightarrow> moment \<Rightarrow> string option \<Rightarrow> state \<Rightarrow> Domain list option \<times> state" where
  "fetchData client_query now aft s =
     (let s1 = s\<lparr>console := console s @ [ConsoleLog ''loading....'' aft]\<rparr>;
          today = startOfDay now;
          startDate = subtract_days today 7;
          endDate = subtract_days today 5;
          (result, s2) = getDomains client_query startDate endDate aft s1
      in case result of
           Resolves (Some d) \<Rightarrow>
             (Some (map (\<lambda>i. \<lparr>name = name (node i), expires = expires (node i)\<rparr>) (edges d)),
              s2\<lparr>pageInfo := Some (DomainConnection.pageInfo d)\<rparr>)
         | Resolves None \<Rightarrow> (None, s2)
         | Rejects e \<Rightarrow> (Some [], s2\<lparr>console := console s2 @ [ConsoleError e]\<rparr>))"

definition refresh :: "client \<Rightarrow> moment \<Rightarrow> state \<Rightarrow> state" where
  "refresh client_query now s =
     (let (ds, s') = fetchData client_query now None s in s'\<lparr>domains := ds\<rparr>)"

text \<open>
  \<open>fetchNext\<close> is an async function: it fulfils, or rejects with the \<^verbatim>\<open>TypeError\<close>
  that spreading \<^verbatim>\<open>undefined\<close> raises. The list it spreads is the one of the state it
  was called in.
\<close>

datatype completion = Fulfilled | Rejected js_error

definition fetchNext :: "client \<Rightarrow> moment \<Rightarrow> state \<Rightarrow> completion \<times> state" where
  "fetchNext client_query now s =
     (case pageInfo s of
        None \<Rightarrow> (Fulfilled, s)
      | Some p \<Rightarrow>
          if hasNextPage p then
            (let (items, s') = fetchData client_query now (Some (endCursor p)) s
             in case domains s of
                  None \<Rightarrow> (Rejected (TypeError ''domains is not iterable''), s')
                | Some ds \<Rightarrow>
                    (case items of
                       None \<Rightarrow> (Rejected (TypeError ''items is not iterable''), s')
                     | Some new_items \<Rightarrow> (Fulfilled, s'\<lparr>domains := Some (ds @ new_items)\<rparr>)))
          else (Fulfilled, s))"

text \<open>The variables \<open>fetchData\<close> passes to \<open>getDomains\<close> at clock reading \<open>now\<close>.\<close>

definition issued_query :: "moment \<Rightarrow> string option \<Rightarrow> Variables" where
  "issued_query now aft =
     variables (subtract_days (startOfDay now) 7) (subtract_days (startOfDay now) 5) aft"

section \<open>The relative-time formatter\<close>

datatype time_unit = Years | Months | Days | Hours | Minutes | Seconds

text \<open>
  The numbers \<^verbatim>\<open>diff\<close> returns: an integer, or \<^verbatim>\<open>NaN\<close> when one of the two dates
  is invalid.
\<close>

datatype jsnum = NaN | Num int

text \<open>
  \<^verbatim>\<open>monthDiff(a, b)\<close> of the library: whole months between the two instants plus a
  fraction that is linear across the month containing \<open>b\<close>. Quotients are exact
  (rationals).
\<close>

function monthDiff :: "moment \<Rightarrow> moment \<Rightarrow> rat" where
  "monthDiff a b =
     (if date a < date b then - monthDiff b a
      else
        (let wholeMonthDiff = (year b - year a) * 12 + (month b - month a);
             anchor = add_months a wholeMonthDiff;
             adjust =
               (if valueOf b - valueOf anchor < 0
                then (let anchor2 = add_months a (wholeMonthDiff - 1)
                      in of_int (valueOf b - valueOf anchor)
                           / of_int (valueOf anchor - valueOf anchor2))
                else (let anchor2 = add_months a (wholeMonthDiff + 1)
                      in of_int (valueOf b - valueOf anchor)
                           / of_int (valueOf anchor2 - valueOf anchor)))
         in - (of_int wholeMonthDiff + adjust)))"
  by pat_completeness auto
termination
  by (relation "measure (\<lambda>(a, b). if date a < date b then 1 else 0)") auto

text \<open>\<^verbatim>\<open>absFloor\<close>: rounding towards zero.\<close>

definition absFloor :: "rat \<Rightarrow> int" where
  "absFloor x = (if x < 0 then \<lceil>x\<rceil> else \<lfloor>x\<rfloor>)"

text \<open>
  \<^verbatim>\<open>this.diff(input, units)\<close>, truncated; \<open>input = None\<close> is an invalid date, as
  \<^verbatim>\<open>moment(expires)\<close> is for a string that does not parse.
\<close>

definition diff :: "moment \<Rightarrow> moment option \<Rightarrow> time_unit \<Rightarrow> jsnum" where
  "diff this input units =
     (case input of
        None \<Rightarrow> NaN
      | Some that \<Rightarrow>
          Num (absFloor
            (case units of
               Years \<Rightarrow> monthDiff this that / 12
             | Months \<Rightarrow> monthDiff this that
             | Days \<Rightarrow> of_int (valueOf this - valueOf that) / 86400000
             | Hours \<Rightarrow> of_int (valueOf this - valueOf that) / 3600000
             | Minutes \<Rightarrow> of_int (valueOf this - valueOf that) / 60000
             | Seconds \<Rightarrow> of_int (valueOf this - valueOf that) / 1000)))"

text \<open>The comparison \<^verbatim>\<open>x >= 1\<close>, false for \<^verbatim>\<open>NaN\<close>.\<close>

definition ge1 :: "jsnum \<Rightarrow> bool" where
  "ge1 x = (case x of NaN \<Rightarrow> False | Num n \<Rightarrow> 1 \<le> n)"

text \<open>A number inside a template literal: decimal digits, a minus sign when negative.\<close>

fun digits :: "nat \<Rightarrow> string" where
  "digits n =
     (if n < 10 then [''0123456789'' ! n] else digits (n div 10) @ [''0123456789'' ! (n mod 10)])"

definition toString :: "jsnum \<Rightarrow> string" where
  "toString x =
     (case x of
        NaN \<Rightarrow> ''NaN''
      | Num n \<Rightarrow> if n < 0 then ''-'' @ digits (nat (- n)) else digits (nat n))"

text \<open>
  The body of \<open>expiredAt\<close>, over the values \<open>d u\<close> that the six calls
  \<^verbatim>\<open>moment().diff(moment(expires), u)\<close> return.
\<close>

definition expiredAt_with :: "(time_unit \<Rightarrow> jsnum) \<Rightarrow> string" where
  "expiredAt_with d =
     (let years = d Years in
      if ge1 years then ''expired '' @ toString years @ '' months ago''
      else
        let months = d Months in
        if ge1 months then ''expired '' @ toString months @ '' months ago''
        else
          let days = d Days in
          if ge1 days then ''expired '' @ toString days @ '' days ago''
          else
            let hours = d Hours in
            if ge1 hours then ''expired '' @ toString hours @ '' hours ago''
            else
              let minutes = d Minutes in
              if ge1 minutes then ''expired '' @ toString minutes @ '' minutes ago''
              else
                let seconds = d Seconds in
                if ge1 seconds then ''expired '' @ toString seconds @ '' seconds ago''
                else ''expired just now'')"

text \<open>
  \<open>expiredAt\<close> at clock reading \<open>now\<close> (the six readings of the clock taken as one
  instant); \<open>parse\<close> is the library's reading of the date string \<open>expiry\<close>.
\<close>

definition expiredAt :: "(string \<Rightarrow> moment option) \<Rightarrow> moment \<Rightarrow> string \<Rightarrow> string" where
  "expiredAt parse now expiry = expiredAt_with (diff now (parse expiry))"

subsection \<open>The formatter as the specification words it\<close>

text \<open>
  The coarsest unit whose elapsed count is at least 1, the units taken from years down
  to seconds, and the word printed for each unit.
\<close>

definition selected_unit :: "(time_unit \<Rightarrow> jsnum) \<Rightarrow> time_unit option" where
  "selected_unit d = find (\<lambda>u. ge1 (d u)) [Years, Months, Days, Hours, Minutes, Seconds]"

definition printed_label :: "time_unit \<Rightarrow> string" where
  "printed_label u =
     (case u of Years \<Rightarrow> ''months'' | Months \<Rightarrow> ''months'' | Days \<Rightarrow> ''days''
      | Hours \<Rightarrow> ''hours'' | Minutes \<Rightarrow> ''minutes'' | Seconds \<Rightarrow> ''seconds'')"


section \<open>Example inputs\<close>

text \<open>15 November 2026, noon.\<close>

definition example_now :: moment where
  "example_now = \<lparr>year = 2026, month = 10, date = 15, time_ms = 43200000\<rparr>"

definition example_node_1 :: Node where
  "example_node_1 =
     \<lparr>name = ''alice.tez'', expires = ''2026-11-09T10:15:00Z'',
      node_id = ''1'', level = 2, owner = ''tz1alice'', operators = [],
      parentOwner = Some ''tz1registrar''\<rparr>"

definition example_node_2 :: Node where
  "example_node_2 =
     \<lparr>name = ''bob.tez'', expires = ''2026-11-08T23:59:59Z'',
      node_id = ''2'', level = 2, owner = ''tz1bob'', operators = [(''7'', ''tz1carol'')],
      parentOwner = None\<rparr>"

definition example_response :: DomainConnection where
  "example_response =
     \<lparr>edges = [\<lparr>node = example_node_1\<rparr>, \<lparr>node = example_node_2\<rparr>],
      DomainConnection.pageInfo =
        \<lparr>startCursor = ''c3'', endCursor = ''c4'', hasNextPage = False, hasPreviousPage = True\<rparr>\<rparr>"

text \<open>A server that answers every query with the example response, and one that is down.\<close>

definition serving_client :: client where
  "serving_client v = Resolves (Some example_response)"

definition failing_client :: client where
  "failing_client v = Rejects (QueryError ''Failed to fetch'')"

text \<open>The component after a first page of one domain, with a next page announced.\<close>

definition paged_state :: state where
  "paged_state =
     \<lparr>domains = Some [\<lparr>name = ''zed.tez'', expires = ''2026-11-10T08:00:00Z''\<rparr>],
      pageInfo =
        Some \<lparr>startCursor = ''c1'', endCursor = ''c2'', hasNextPage = True, hasPreviousPage = False\<rparr>,
      console = [], requests = []\<rparr>"

text \<open>The same component when the server announced no further page.\<close>

definition last_page_state :: state where
  "last_page_state =
     paged_state\<lparr>pageInfo :=
        Some \<lparr>startCursor = ''c1'', endCursor = ''c2'', hasNextPage = False, hasPreviousPage = False\<rparr>\<rparr>"

text \<open>A reading of date strings that always yields \<open>e\<close>, and one that never parses.\<close>

definition parses_as :: "moment \<Rightarrow> string \<Rightarrow> moment option" where
  "parses_as e str = Some e"

definition parses_nothing :: "string \<Rightarrow> moment option" where
  "parses_nothing str = None"




declare monthDiff.simps [simp del]

declare digits.simps [simp del]

section \<open>Calendar arithmetic\<close>

subsection \<open>Leap years and the first day of each month\<close>

lemma div_step:
  fixes y d :: int
  assumes "0 < d"
  shows "y div d - (y - 1) div d = (if y mod d = 0 then 1 else 0)"
proof (cases "y mod d = 0")
  case True
  have "y - 1 = d * (y div d - 1) + (d - 1)"
    using True mult_div_mod_eq [of d y] by (simp add: algebra_simps)
  then have "(y - 1) div d = y div d - 1"
    using assms by (intro int_div_pos_eq [where r = "d - 1"]) simp_all
  then show ?thesis using True by simp
next
  case False
  have r: "0 \<le> y mod d" "y mod d < d" using assms by simp_all
  have "y - 1 = d * (y div d) + (y mod d - 1)"
    by (simp add: algebra_simps)
  then have "(y - 1) div d = y div d"
    using assms r False by (intro int_div_pos_eq [where r = "y mod d - 1"]) simp_all
  then show ?thesis using False by simp
qed

lemma leap_count:
  fixes a b c a' b' c' :: int
  assumes "a - a' = (if p4 then 1 else 0)" "b - b' = (if p100 then 1 else 0)"
    "c - c' = (if p400 then 1 else 0)" "p400 \<Longrightarrow> p100" "p100 \<Longrightarrow> p4"
  shows "(a - b + c) - (a' - b' + c') = (if (p4 \<and> \<not> p100) \<or> p400 then 1 else 0)"
  using assms by (cases p4; cases p100; cases p400) simp_all

lemma leap_step:
  "(y div 4 - y div 100 + y div 400) - ((y - 1) div 4 - (y - 1) div 100 + (y - 1) div 400)
     = (if isLeapYear y then 1 else (0::int))"
  unfolding isLeapYear_def
proof (rule leap_count)
  show "y div 4 - (y - 1) div 4 = (if y mod 4 = 0 then 1 else 0)" by (rule div_step) simp
  show "y div 100 - (y - 1) div 100 = (if y mod 100 = 0 then 1 else 0)" by (rule div_step) simp
  show "y div 400 - (y - 1) div 400 = (if y mod 400 = 0 then 1 else 0)" by (rule div_step) simp
  show "y mod 400 = 0 \<Longrightarrow> y mod 100 = 0"
    using mod_mod_cancel [of 100 400 y] by simp
  show "y mod 100 = 0 \<Longrightarrow> y mod 4 = 0"
    using mod_mod_cancel [of 4 100 y] by simp
qed

lemma days_before_year_step:
  "days_before_year (y + 1) = days_before_year y + 365 + (if isLeapYear y then 1 else 0)"
proof -
  have "days_before_year (y + 1) - days_before_year y =
      365 + ((y div 4 - y div 100 + y div 400)
             - ((y - 1) div 4 - (y - 1) div 100 + (y - 1) div 400))"
    unfolding days_before_year_def by (simp add: algebra_simps)
  then show ?thesis
    unfolding leap_step by (simp add: algebra_simps)
qed

lemma month_cases:
  fixes m :: int
  assumes "0 \<le> m" "m < 12"
  obtains "m = 0" | "m = 1" | "m = 2" | "m = 3" | "m = 4" | "m = 5" | "m = 6" | "m = 7"
    | "m = 8" | "m = 9" | "m = 10" | "m = 11"
proof -
  have "m = 0 \<or> m = 1 \<or> m = 2 \<or> m = 3 \<or> m = 4 \<or> m = 5 \<or> m = 6 \<or> m = 7
      \<or> m = 8 \<or> m = 9 \<or> m = 10 \<or> m = 11"
    using assms by presburger
  then show thesis using that by blast
qed

lemma daysInMonth_bounds:
  assumes "0 \<le> m" "m < 12"
  shows "28 \<le> daysInMonth y m \<and> daysInMonth y m \<le> 31"
  using assms by (rule month_cases) (simp_all add: daysInMonth_def)

lemma month_start_split:
  assumes "0 \<le> m" "m < 12"
  shows "month_start (12 * y + m) =
    days_before_year y + days_before_month m + (if isLeapYear y \<and> 2 \<le> m then 1 else 0)"
proof -
  have "(12 * y + m) div 12 = y" "(12 * y + m) mod 12 = m" using assms by auto
  then show ?thesis by (simp add: month_start_def Let_def)
qed

lemma month_start_step_ym:
  assumes "0 \<le> m" "m < 12"
  shows "month_start (12 * y + m + 1) = month_start (12 * y + m) + daysInMonth y m"
proof (cases "m = 11")
  case True
  have "month_start (12 * y + m + 1) = month_start (12 * (y + 1) + 0)"
    using True by (simp add: algebra_simps)
  also have "\<dots> = days_before_year (y + 1)"
    by (subst month_start_split) (simp_all add: days_before_month_def)
  finally show ?thesis
    using True
    by (simp add: month_start_split days_before_year_step days_before_month_def daysInMonth_def)
next
  case False
  then have m: "0 \<le> m + 1" "m + 1 < 12" using assms by auto
  have "month_start (12 * y + m + 1) = month_start (12 * y + (m + 1))"
    by (simp add: algebra_simps)
  also have "\<dots> = days_before_year y + days_before_month (m + 1)
      + (if isLeapYear y \<and> 2 \<le> m + 1 then 1 else 0)"
    using m by (rule month_start_split)
  finally have *: "month_start (12 * y + m + 1) = days_before_year y + days_before_month (m + 1)
      + (if isLeapYear y \<and> 2 \<le> m + 1 then 1 else 0)" .
  have "days_before_month (m + 1) + (if isLeapYear y \<and> 2 \<le> m + 1 then 1 else 0)
      = days_before_month m + (if isLeapYear y \<and> 2 \<le> m then 1 else 0) + daysInMonth y m"
    using assms
  proof (cases rule: month_cases)
    case 12
    with False show ?thesis by simp
  qed (simp_all add: days_before_month_def daysInMonth_def)
  then show ?thesis
    unfolding * month_start_split [OF assms] by simp
qed

lemma month_start_step:
  "month_start (k + 1) = month_start k + daysInMonth (k div 12) (k mod 12)"
proof -
  have "month_start (12 * (k div 12) + k mod 12 + 1)
      = month_start (12 * (k div 12) + k mod 12) + daysInMonth (k div 12) (k mod 12)"
    by (rule month_start_step_ym) simp_all
  then show ?thesis by simp
qed

lemma month_start_grows_nat:
  "month_start k + 28 * int n \<le> month_start (k + int n)"
proof (induction n)
  case 0
  then show ?case by simp
next
  case (Suc n)
  have "28 \<le> daysInMonth ((k + int n) div 12) ((k + int n) mod 12)"
    using daysInMonth_bounds [of "(k + int n) mod 12"] by simp
  moreover have "month_start (k + int (Suc n)) = month_start (k + int n + 1)"
    by (simp add: algebra_simps)
  ultimately show ?case
    using Suc month_start_step [of "k + int n"] by simp
qed

lemma month_start_grows:
  assumes "k \<le> k'"
  shows "month_start k + 28 * (k' - k) \<le> month_start k'"
  using month_start_grows_nat [of k "nat (k' - k)"] assms by simp

subsection \<open>Instants, adding months and stepping back by days\<close>

lemma month_index_div_mod:
  assumes "valid_moment m"
  shows "month_index m div 12 = year m" "month_index m mod 12 = month m"
  using assms unfolding valid_moment_def month_index_def by auto

lemma valueOf_lower:
  assumes "valid_moment m"
  shows "month_start (month_index m) * 86400000 \<le> valueOf m"
  using assms unfolding valid_moment_def valueOf_def by simp

lemma valueOf_upper:
  assumes "valid_moment m"
  shows "valueOf m < month_start (month_index m + 1) * 86400000"
proof -
  have "month_start (month_index m + 1) = month_start (month_index m) + daysInMonth (year m) (month m)"
    using month_start_step [of "month_index m"] month_index_div_mod [OF assms] by simp
  then show ?thesis
    using assms unfolding valid_moment_def valueOf_def by simp
qed

lemma add_months_index: "month_index (add_months a n) = month_index a + n"
  by (simp add: add_months_def Let_def month_index_def)

lemma add_months_time: "time_ms (add_months a n) = time_ms a"
  by (simp add: add_months_def Let_def)

lemma add_months_date:
  "date (add_months a n) =
     min (date a) (daysInMonth ((month_index a + n) div 12) ((month_index a + n) mod 12))"
  by (simp add: add_months_def Let_def)

lemma add_months_date_le: "date (add_months a n) \<le> date a"
  by (simp add: add_months_date)

lemma add_months_valid:
  assumes "valid_moment a"
  shows "valid_moment (add_months a n)"
proof -
  have "28 \<le> daysInMonth ((month_index a + n) div 12) ((month_index a + n) mod 12)"
    using daysInMonth_bounds [of "(month_index a + n) mod 12"] by simp
  then show ?thesis
    using assms unfolding valid_moment_def by (simp add: add_months_def Let_def)
qed

lemma add_months_valueOf:
  "valueOf (add_months a n) =
     (month_start (month_index a + n) + date (add_months a n) - 1) * 86400000 + time_ms a"
  unfolding valueOf_def add_months_index add_months_time ..

lemma add_months_forward:
  assumes "valid_moment a" "1 \<le> n"
  shows "valueOf a + 28 * 86400000 \<le> valueOf (add_months a n)"
proof -
  let ?k = "month_index a"
  let ?dim = "daysInMonth ((?k + n) div 12) ((?k + n) mod 12)"
  have g1: "month_start ?k + 28 * n \<le> month_start (?k + n)"
    using month_start_grows [of ?k "?k + n"] assms(2) by simp
  have g2: "month_start (?k + 1) + 28 * n \<le> month_start (?k + n + 1)"
    using month_start_grows [of "?k + 1" "?k + n + 1"] assms(2) by simp
  have s1: "month_start (?k + 1) = month_start ?k + daysInMonth (year a) (month a)"
    using month_start_step [of ?k] month_index_div_mod [OF assms(1)] by simp
  have s2: "month_start (?k + n + 1) = month_start (?k + n) + ?dim"
    using month_start_step [of "?k + n"] by simp
  have d: "date a \<le> daysInMonth (year a) (month a)"
    using assms(1) unfolding valid_moment_def by simp
  have "month_start ?k + date a + 28 \<le> month_start (?k + n) + date (add_months a n)"
  proof (cases "date a \<le> ?dim")
    case True
    then show ?thesis using g1 assms(2) by (simp add: add_months_date)
  next
    case False
    then show ?thesis using g2 s1 s2 d assms(2) by (simp add: add_months_date)
  qed
  then show ?thesis
    unfolding add_months_valueOf unfolding valueOf_def by simp
qed

lemma add_months_backward:
  assumes "valid_moment a" "n \<le> - 1"
  shows "valueOf (add_months a n) + 28 * 86400000 \<le> valueOf a"
proof -
  let ?k = "month_index a"
  have "month_start (?k + n) + 28 * (- n) \<le> month_start ?k"
    using month_start_grows [of "?k + n" ?k] assms(2) by simp
  then have "month_start (?k + n) + date (add_months a n) + 28 \<le> month_start ?k + date a"
    using add_months_date_le [of a n] assms(2) by simp
  then show ?thesis
    unfolding add_months_valueOf unfolding valueOf_def by simp
qed

lemma add_months_mono:
  assumes "valid_moment a" "n < n'"
  shows "valueOf (add_months a n) < valueOf (add_months a n')"
proof -
  have "valueOf (add_months a n) < month_start (month_index a + n + 1) * 86400000"
    using valueOf_upper [OF add_months_valid [OF assms(1)], of n]
    by (simp add: add_months_index)
  also have "\<dots> \<le> month_start (month_index a + n') * 86400000"
    using month_start_grows [of "month_index a + n + 1" "month_index a + n'"] assms(2) by simp
  also have "\<dots> \<le> valueOf (add_months a n')"
    using valueOf_lower [OF add_months_valid [OF assms(1)], of n']
    by (simp add: add_months_index)
  finally show ?thesis .
qed

lemma prev_day_valid:
  assumes "valid_moment m"
  shows "valid_moment (prev_day m)"
proof (cases "1 < date m")
  case True
  then show ?thesis using assms by (simp add: prev_day_def valid_moment_def)
next
  case False
  have "28 \<le> daysInMonth ((month_index m - 1) div 12) ((month_index m - 1) mod 12)"
    using daysInMonth_bounds [of "(month_index m - 1) mod 12"] by simp
  then show ?thesis
    using False assms by (simp add: prev_day_def valid_moment_def Let_def)
qed

lemma prev_day_valueOf:
  assumes "valid_moment m"
  shows "valueOf (prev_day m) = valueOf m - 86400000"
proof (cases "1 < date m")
  case True
  then show ?thesis by (simp add: prev_day_def valueOf_def month_index_def)
next
  case False
  then have d: "date m = 1" using assms by (simp add: valid_moment_def)
  let ?k = "month_index m - 1"
  have i: "month_index (prev_day m) = ?k"
    using False by (simp add: prev_day_def Let_def month_index_def)
  have "month_start (?k + 1) = month_start ?k + daysInMonth (?k div 12) (?k mod 12)"
    by (rule month_start_step)
  then have "month_start ?k + date (prev_day m) = month_start (month_index m)"
    using False by (simp add: prev_day_def Let_def)
  moreover have "time_ms (prev_day m) = time_ms m"
    using False by (simp add: prev_day_def Let_def)
  ultimately show ?thesis
    unfolding valueOf_def i using d by simp
qed

lemma subtract_days_valueOf:
  assumes "valid_moment m"
  shows "valid_moment (subtract_days m n) \<and>
    valueOf (subtract_days m n) = valueOf m - int n * 86400000"
  using assms
proof (induction n arbitrary: m)
  case 0
  then show ?case by simp
next
  case (Suc n)
  have "valid_moment (prev_day m)" using Suc.prems by (rule prev_day_valid)
  from Suc.IH [OF this] show ?case
    using prev_day_valueOf [OF Suc.prems] by (simp add: algebra_simps)
qed

lemma startOfDay_valueOf:
  assumes "valid_moment m"
  shows "valid_moment (startOfDay m)" "valueOf (startOfDay m) = valueOf m - time_ms m"
  using assms by (simp_all add: startOfDay_def valid_moment_def valueOf_def month_index_def)

subsection \<open>Bounds on the difference in months\<close>

lemma frac_lt_1:
  fixes p q :: int
  assumes "p < q" "0 < q"
  shows "(of_int p / of_int q :: rat) < 1"
  using assms by simp

lemma frac_neg:
  fixes p q :: int
  assumes "p < 0" "0 < q"
  shows "(of_int p / of_int q :: rat) < 0"
  using assms by (simp add: divide_neg_pos)

lemma frac_pos:
  fixes p q :: int
  assumes "0 < p" "0 < q"
  shows "0 < (of_int p / of_int q :: rat)"
  using assms by simp

lemma frac_nonneg:
  fixes p q :: int
  assumes "0 \<le> p" "0 < q"
  shows "0 \<le> (of_int p / of_int q :: rat)"
  using assms by simp

lemma frac_gt_minus_1:
  fixes p q :: int
  assumes "- q < p" "0 < q"
  shows "- 1 < (of_int p / of_int q :: rat)"
proof -
  have "(of_int (- p) / of_int q :: rat) < 1"
    using assms by (intro frac_lt_1) simp_all
  then show ?thesis by simp
qed

lemma whole_index:
  "(year b - year a) * 12 + (month b - month a) = month_index b - month_index a"
  by (simp add: month_index_def algebra_simps)

text \<open>The value of monthDiff when the first date is not before the second in the month.\<close>

lemma monthDiff_unswapped:
  assumes "\<not> date a < date b"
  shows "monthDiff a b =
    - (of_int (month_index b - month_index a) +
       (if valueOf b < valueOf (add_months a (month_index b - month_index a))
        then of_int (valueOf b - valueOf (add_months a (month_index b - month_index a)))
               / of_int (valueOf (add_months a (month_index b - month_index a))
                         - valueOf (add_months a (month_index b - month_index a - 1)))
        else of_int (valueOf b - valueOf (add_months a (month_index b - month_index a)))
               / of_int (valueOf (add_months a (month_index b - month_index a + 1))
                         - valueOf (add_months a (month_index b - month_index a)))))"
  by (subst monthDiff.simps) (simp only: assms if_False whole_index Let_def, simp)

lemma monthDiff_swapped:
  assumes "date a < date b"
  shows "monthDiff a b = - monthDiff b a"
  using assms by (subst monthDiff.simps) simp

text \<open>Bounds of the unswapped value, with \<open>w\<close> the whole-month difference.\<close>

lemma monthDiff_unswapped_lt_1:
  assumes "valid_moment a" "valid_moment b" "\<not> date a < date b"
    and "valueOf a - valueOf b < 28 * 86400000"
  shows "monthDiff a b < 1"
proof -
  let ?w = "month_index b - month_index a"
  let ?anchor = "add_months a ?w"
  show ?thesis
  proof (cases "valueOf b < valueOf ?anchor")
    case True
    have w: "0 \<le> ?w"
    proof (rule ccontr)
      assume "\<not> 0 \<le> ?w"
      then have "valueOf ?anchor + 28 * 86400000 \<le> valueOf a"
        by (intro add_months_backward [OF assms(1)]) simp
      with True assms(4) show False by simp
    qed
    have "valueOf (add_months a (?w - 1)) < month_start (month_index b) * 86400000"
      using valueOf_upper [OF add_months_valid [OF assms(1)], of "?w - 1"]
      by (simp add: add_months_index algebra_simps)
    also have "\<dots> \<le> valueOf b"
      by (rule valueOf_lower [OF assms(2)])
    finally have "- 1 < (of_int (valueOf b - valueOf ?anchor)
            / of_int (valueOf ?anchor - valueOf (add_months a (?w - 1))) :: rat)"
      using True by (intro frac_gt_minus_1) simp_all
    moreover have "(0::rat) \<le> of_int ?w" using w by simp
    ultimately show ?thesis
      unfolding monthDiff_unswapped [OF assms(3)] using True by simp
  next
    case False
    let ?adj = "(of_int (valueOf b - valueOf ?anchor)
            / of_int (valueOf (add_months a (?w + 1)) - valueOf ?anchor) :: rat)"
    have den: "0 < valueOf (add_months a (?w + 1)) - valueOf ?anchor"
      using add_months_mono [OF assms(1), of ?w "?w + 1"] by simp
    have eq: "monthDiff a b = - (of_int ?w + ?adj)"
      unfolding monthDiff_unswapped [OF assms(3)] using False by simp
    consider "0 \<le> ?w" | "?w = - 1" | "?w \<le> - 2" by linarith
    then show ?thesis
    proof cases
      case 1
      have "0 \<le> ?adj" using False den by (intro frac_nonneg) simp_all
      moreover have "(0::rat) \<le> of_int ?w" using 1 by simp
      ultimately show ?thesis unfolding eq by simp
    next
      case 2
      have "valueOf ?anchor + 28 * 86400000 \<le> valueOf a"
        using 2 by (intro add_months_backward [OF assms(1)]) simp
      then have "0 < ?adj"
        using assms(4) den by (intro frac_pos) simp_all
      moreover have "(of_int ?w :: rat) = - 1" using 2 by simp
      ultimately show ?thesis unfolding eq by simp
    next
      case 3
      have "valueOf b < month_start (month_index b + 1) * 86400000"
        by (rule valueOf_upper [OF assms(2)])
      moreover have "month_start (month_index b + 1) + 28 * (month_index a - (month_index b + 1))
          \<le> month_start (month_index a)"
        using 3 by (intro month_start_grows) simp
      moreover have "month_start (month_index a) * 86400000 \<le> valueOf a"
        by (rule valueOf_lower [OF assms(1)])
      ultimately have False using 3 assms(4) by simp
      then show ?thesis ..
    qed
  qed
qed

lemma monthDiff_unswapped_gt_minus_1:
  assumes "valid_moment a" "valid_moment b" "\<not> date a < date b"
    and "valueOf b - valueOf a < 28 * 86400000"
  shows "- 1 < monthDiff a b"
proof -
  let ?w = "month_index b - month_index a"
  let ?anchor = "add_months a ?w"
  show ?thesis
  proof (cases "valueOf b < valueOf ?anchor")
    case True
    have w: "?w \<le> 1"
    proof (rule ccontr)
      assume "\<not> ?w \<le> 1"
      then have "month_start (month_index a + 1) + 28 * (month_index b - (month_index a + 1))
          \<le> month_start (month_index b)"
        by (intro month_start_grows) simp
      moreover have "valueOf a < month_start (month_index a + 1) * 86400000"
        by (rule valueOf_upper [OF assms(1)])
      moreover have "month_start (month_index b) * 86400000 \<le> valueOf b"
        by (rule valueOf_lower [OF assms(2)])
      ultimately show False using \<open>\<not> ?w \<le> 1\<close> assms(4) by simp
    qed
    have "(of_int (valueOf b - valueOf ?anchor)
            / of_int (valueOf ?anchor - valueOf (add_months a (?w - 1))) :: rat) < 0"
      using True add_months_mono [OF assms(1), of "?w - 1" ?w] by (intro frac_neg) simp_all
    moreover have "(of_int ?w :: rat) \<le> 1" using w by (simp only: of_int_le_1_iff)
    ultimately show ?thesis
      unfolding monthDiff_unswapped [OF assms(3)] using True by simp
  next
    case False
    have w: "?w \<le> 0"
    proof (rule ccontr)
      assume "\<not> ?w \<le> 0"
      then have "valueOf a + 28 * 86400000 \<le> valueOf ?anchor"
        by (intro add_months_forward [OF assms(1)]) simp
      with False assms(4) show False by simp
    qed
    have "valueOf b < month_start (month_index b + 1) * 86400000"
      by (rule valueOf_upper [OF assms(2)])
    also have "\<dots> \<le> valueOf (add_months a (?w + 1))"
      using valueOf_lower [OF add_months_valid [OF assms(1)], of "?w + 1"]
      by (simp add: add_months_index algebra_simps)
    finally have "(of_int (valueOf b - valueOf ?anchor)
            / of_int (valueOf (add_months a (?w + 1)) - valueOf ?anchor) :: rat) < 1"
      using add_months_mono [OF assms(1), of ?w "?w + 1"] by (intro frac_lt_1) simp_all
    moreover have "(of_int ?w :: rat) \<le> 0" using w by (simp only: of_int_le_0_iff)
    ultimately show ?thesis
      unfolding monthDiff_unswapped [OF assms(3)] using False by simp
  qed
qed

text \<open>An age below 28 days is less than one month.\<close>

lemma monthDiff_lt_1:
  assumes "valid_moment a" "valid_moment b" "valueOf a - valueOf b < 28 * 86400000"
  shows "monthDiff a b < 1"
proof (cases "date a < date b")
  case True
  then have "\<not> date b < date a" by simp
  then have "- 1 < monthDiff b a"
    using assms by (intro monthDiff_unswapped_gt_minus_1) simp_all
  then show ?thesis
    unfolding monthDiff_swapped [OF True] by simp
next
  case False
  then show ?thesis
    using assms by (intro monthDiff_unswapped_lt_1) simp_all
qed

text \<open>Going back \<open>k\<close> calendar months is an age of exactly \<open>k\<close> months.\<close>

lemma monthDiff_add_months:
  "monthDiff a (add_months a (- k)) = of_int k"
proof -
  have "\<not> date a < date (add_months a (- k))"
    using add_months_date_le [of a "- k"] by simp
  then show ?thesis
    by (subst monthDiff_unswapped) (simp_all add: add_months_index)
qed

lemma absFloor_ge_1: "1 \<le> absFloor x \<longleftrightarrow> 1 \<le> x"
proof (cases "x < 0")
  case True
  then have "\<lceil>x\<rceil> \<le> 0" by (simp add: ceiling_le_iff)
  with True show ?thesis by (simp add: absFloor_def)
next
  case False
  then show ?thesis by (simp add: absFloor_def le_floor_iff)
qed


lemma absFloor_quotient:
  assumes "0 \<le> n" "0 < d"
  shows "absFloor (of_int n / of_int d) = n div d"
proof -
  have "(0::rat) \<le> of_int n / of_int d" using assms by simp
  then show ?thesis
    by (simp add: absFloor_def floor_divide_of_int_eq)
qed

lemma numeral_le_of_int:
  "(numeral k \<le> (of_int n :: rat)) = (numeral k \<le> n)"
  by (metis of_int_le_iff of_int_numeral)

lemma ge1_diff_Years: "ge1 (diff a (Some b) Years) \<longleftrightarrow> 12 \<le> monthDiff a b"
  by (simp add: ge1_def diff_def absFloor_ge_1)

lemma ge1_diff_Months: "ge1 (diff a (Some b) Months) \<longleftrightarrow> 1 \<le> monthDiff a b"
  by (simp add: ge1_def diff_def absFloor_ge_1)

lemma ge1_diff_Days: "ge1 (diff a (Some b) Days) \<longleftrightarrow> 86400000 \<le> valueOf a - valueOf b"
  by (simp add: ge1_def diff_def absFloor_ge_1 le_divide_eq numeral_le_of_int del: of_int_diff)

lemma ge1_diff_Hours: "ge1 (diff a (Some b) Hours) \<longleftrightarrow> 3600000 \<le> valueOf a - valueOf b"
  by (simp add: ge1_def diff_def absFloor_ge_1 le_divide_eq numeral_le_of_int del: of_int_diff)

lemma ge1_diff_Minutes: "ge1 (diff a (Some b) Minutes) \<longleftrightarrow> 60000 \<le> valueOf a - valueOf b"
  by (simp add: ge1_def diff_def absFloor_ge_1 le_divide_eq numeral_le_of_int del: of_int_diff)

lemma ge1_diff_Seconds: "ge1 (diff a (Some b) Seconds) \<longleftrightarrow> 1000 \<le> valueOf a - valueOf b"
  by (simp add: ge1_def diff_def absFloor_ge_1 le_divide_eq numeral_le_of_int del: of_int_diff)

lemma ge1_diff_None: "\<not> ge1 (diff a None u)"
  by (simp add: ge1_def diff_def)

section \<open>Properties of fetching\<close>

subsection \<open>The three outcomes of a fetch\<close>

lemma fetchData_Resolves_Some:
  assumes "q (issued_query now aft) = Resolves (Some d)"
  shows "fetchData q now aft s =
    (Some (map (\<lambda>i. \<lparr>name = name (node i), expires = expires (node i)\<rparr>) (edges d)),
     s\<lparr>console := console s @ [ConsoleLog ''loading....'' aft],
       requests := requests s @ [issued_query now aft],
       pageInfo := Some (DomainConnection.pageInfo d)\<rparr>)"
  using assms by (simp add: fetchData_def getDomains_def issued_query_def Let_def)

lemma fetchData_Resolves_None:
  assumes "q (issued_query now aft) = Resolves None"
  shows "fetchData q now aft s =
    (None, s\<lparr>console := console s @ [ConsoleLog ''loading....'' aft],
             requests := requests s @ [issued_query now aft]\<rparr>)"
  using assms by (simp add: fetchData_def getDomains_def issued_query_def Let_def)

lemma fetchData_Rejects:
  assumes "q (issued_query now aft) = Rejects e"
  shows "fetchData q now aft s =
    (Some [], s\<lparr>console := console s @ [ConsoleLog ''loading....'' aft, ConsoleError e],
                requests := requests s @ [issued_query now aft]\<rparr>)"
  using assms by (simp add: fetchData_def getDomains_def issued_query_def Let_def)

lemma outcome_cases:
  obtains (data) d where "q (issued_query now aft) = Resolves (Some d)"
  | (nodata) "q (issued_query now aft) = Resolves None"
  | (rejects) e where "q (issued_query now aft) = Rejects e"
proof (cases "q (issued_query now aft)")
  case (Rejects e)
  then show ?thesis by (rule rejects)
next
  case (Resolves r)
  then show ?thesis by (cases r) (auto intro: data nodata)
qed

lemma fetchData_domains: "domains (snd (fetchData q now aft s)) = domains s"
  by (cases q now aft rule: outcome_cases)
     (simp_all add: fetchData_Resolves_Some fetchData_Resolves_None fetchData_Rejects)

lemma fetchData_requests:
  "requests (snd (fetchData q now aft s)) = requests s @ [issued_query now aft]"
  by (cases q now aft rule: outcome_cases)
     (simp_all add: fetchData_Resolves_Some fetchData_Resolves_None fetchData_Rejects)

lemma fetchData_ignores_state:
  "fst (fetchData q now aft s) = fst (fetchData q now aft s')"
  by (cases q now aft rule: outcome_cases)
     (simp_all add: fetchData_Resolves_Some fetchData_Resolves_None fetchData_Rejects)

lemma refresh_unfold:
  "refresh q now s = (snd (fetchData q now None s))\<lparr>domains := fst (fetchData q now None s)\<rparr>"
  by (simp add: refresh_def split_beta)

lemma fetchNext_unfold:
  assumes "pageInfo s = Some p" "hasNextPage p"
  shows "fetchNext q now s =
    (case domains s of
       None \<Rightarrow> (Rejected (TypeError ''domains is not iterable''),
                snd (fetchData q now (Some (endCursor p)) s))
     | Some ds \<Rightarrow>
        (case fst (fetchData q now (Some (endCursor p)) s) of
           None \<Rightarrow> (Rejected (TypeError ''items is not iterable''),
                    snd (fetchData q now (Some (endCursor p)) s))
         | Some new_items \<Rightarrow>
             (Fulfilled,
              (snd (fetchData q now (Some (endCursor p)) s))\<lparr>domains := Some (ds @ new_items)\<rparr>)))"
  using assms by (simp add: fetchNext_def split_beta)

lemma fetchNext_stops:
  assumes "pageInfo s = None \<or> (\<exists>p. pageInfo s = Some p \<and> \<not> hasNextPage p)"
  shows "fetchNext q now s = (Fulfilled, s)"
  using assms by (auto simp add: fetchNext_def)

subsection \<open>Fetching the next page\<close>

text \<open>
  Claim C1. When there is no page information, or it says there is no next page,
  \<open>fetchNext\<close> leaves the whole state as it is (and sends and logs nothing). When there
  is a next page and the list is \<open>ds\<close>, the new list is \<open>ds\<close> followed by the items the
  fetch returned (\<open>ds\<close> itself when the fetch returned \<^verbatim>\<open>undefined\<close>), so \<open>ds\<close> is a
  prefix of it. A list that is \<^verbatim>\<open>undefined\<close> stays so.
\<close>

theorem fetchNext_noop_or_append:
  "(pageInfo s = None \<longrightarrow> fetchNext q now s = (Fulfilled, s)) \<and>
   (\<forall>p. pageInfo s = Some p \<and> \<not> hasNextPage p \<longrightarrow> fetchNext q now s = (Fulfilled, s)) \<and>
   (\<forall>p ds. pageInfo s = Some p \<and> hasNextPage p \<and> domains s = Some ds \<longrightarrow>
      (case fst (fetchData q now (Some (endCursor p)) s) of
         Some items \<Rightarrow> domains (snd (fetchNext q now s)) = Some (ds @ items)
       | None \<Rightarrow> domains (snd (fetchNext q now s)) = Some ds) \<and>
      (\<exists>ds'. domains (snd (fetchNext q now s)) = Some ds' \<and> prefix ds ds')) \<and>
   (domains s = None \<longrightarrow> domains (snd (fetchNext q now s)) = None)"
proof (intro conjI allI impI)
  assume u: "domains s = None"
  show "domains (snd (fetchNext q now s)) = None"
  proof (cases "pageInfo s")
    case None
    with u show ?thesis by (simp add: fetchNext_stops)
  next
    case (Some p)
    with u show ?thesis
      by (cases "hasNextPage p") (simp_all add: fetchNext_unfold fetchNext_stops fetchData_domains)
  qed
next
  assume "pageInfo s = None"
  then show "fetchNext q now s = (Fulfilled, s)" by (simp add: fetchNext_stops)
next
  fix p assume "pageInfo s = Some p \<and> \<not> hasNextPage p"
  then show "fetchNext q now s = (Fulfilled, s)" by (simp add: fetchNext_stops)
next
  fix p ds assume h: "pageInfo s = Some p \<and> hasNextPage p \<and> domains s = Some ds"
  then have u: "fetchNext q now s =
      (case fst (fetchData q now (Some (endCursor p)) s) of
         None \<Rightarrow> (Rejected (TypeError ''items is not iterable''),
                  snd (fetchData q now (Some (endCursor p)) s))
       | Some new_items \<Rightarrow>
           (Fulfilled,
            (snd (fetchData q now (Some (endCursor p)) s))\<lparr>domains := Some (ds @ new_items)\<rparr>))"
    by (simp add: fetchNext_unfold)
  have d: "domains (snd (fetchData q now (Some (endCursor p)) s)) = Some ds"
    using h by (simp add: fetchData_domains)
  show "case fst (fetchData q now (Some (endCursor p)) s) of
         Some items \<Rightarrow> domains (snd (fetchNext q now s)) = Some (ds @ items)
       | None \<Rightarrow> domains (snd (fetchNext q now s)) = Some ds"
    unfolding u using d by (simp split: option.split)
  show "\<exists>ds'. domains (snd (fetchNext q now s)) = Some ds' \<and> prefix ds ds'"
    unfolding u using d by (simp split: option.split)
qed

text \<open>The theorem at the initial state, at a last page, and at a state with a next page.\<close>

theorem fetchNext_noop_or_append_witness:
  "fetchNext serving_client example_now initial_state = (Fulfilled, initial_state) \<and>
   fetchNext serving_client example_now last_page_state = (Fulfilled, last_page_state) \<and>
   domains (snd (fetchNext serving_client example_now paged_state)) =
     Some [\<lparr>name = ''zed.tez'', expires = ''2026-11-10T08:00:00Z''\<rparr>,
           \<lparr>name = ''alice.tez'', expires = ''2026-11-09T10:15:00Z''\<rparr>,
           \<lparr>name = ''bob.tez'', expires = ''2026-11-08T23:59:59Z''\<rparr>]"
proof -
  have f: "fst (fetchData serving_client example_now (Some ''c2'') paged_state) =
      Some [\<lparr>name = ''alice.tez'', expires = ''2026-11-09T10:15:00Z''\<rparr>,
            \<lparr>name = ''bob.tez'', expires = ''2026-11-08T23:59:59Z''\<rparr>]"
    by (simp add: fetchData_def getDomains_def serving_client_def example_response_def
        example_node_1_def example_node_2_def Let_def)
  show ?thesis
    using fetchNext_noop_or_append [of initial_state serving_client example_now]
      fetchNext_noop_or_append [of last_page_state serving_client example_now]
      fetchNext_noop_or_append [of paged_state serving_client example_now] f
    by (simp add: initial_state_def last_page_state_def paged_state_def)
qed

subsection \<open>Mapping a response\<close>

text \<open>
  Claim C2. When the query resolves with data, the list \<open>fetchData\<close> returns has as many
  entries as the response has edges, and the entry at each position carries the name and
  the expiry of the node of the edge at that position, so the order of the server is kept.
\<close>

theorem fetchData_maps_edges:
  assumes "q (issued_query now aft) = Resolves (Some d)"
  shows "\<exists>r. fst (fetchData q now aft s) = Some r \<and> length r = length (edges d) \<and>
     (\<forall>i<length (edges d).
        name (r ! i) = name (node (edges d ! i)) \<and>
        expires (r ! i) = expires (node (edges d ! i)))"
  using assms by (simp add: fetchData_Resolves_Some)

text \<open>The statement at the example response of two edges.\<close>

theorem fetchData_maps_edges_witness:
  "serving_client (issued_query example_now None) = Resolves (Some example_response) \<and>
   length (edges example_response) = 2 \<and>
   fst (fetchData serving_client example_now None initial_state) =
     Some [\<lparr>name = ''alice.tez'', expires = ''2026-11-09T10:15:00Z''\<rparr>,
           \<lparr>name = ''bob.tez'', expires = ''2026-11-08T23:59:59Z''\<rparr>]"
proof -
  have h: "serving_client (issued_query example_now None) = Resolves (Some example_response)"
    by (simp add: serving_client_def)
  obtain r where r: "fst (fetchData serving_client example_now None initial_state) = Some r"
    and l: "length r = length (edges example_response)"
    and f: "\<forall>i<length (edges example_response).
        name (r ! i) = name (node (edges example_response ! i)) \<and>
        expires (r ! i) = expires (node (edges example_response ! i))"
    using fetchData_maps_edges [of serving_client example_now None example_response initial_state] h
    by blast
  have n: "length (edges example_response) = 2"
    by (simp add: example_response_def)
  have "r ! 0 = \<lparr>name = ''alice.tez'', expires = ''2026-11-09T10:15:00Z''\<rparr>"
    using f n by (simp add: example_response_def example_node_1_def)
  moreover have "r ! 1 = \<lparr>name = ''bob.tez'', expires = ''2026-11-08T23:59:59Z''\<rparr>"
    using f n by (simp add: example_response_def example_node_2_def)
  moreover have "r = [r ! 0, r ! 1]"
    using l n by (cases r; simp) (metis One_nat_def Suc_length_conv length_0_conv list.inject nth_Cons_0 nth_Cons_Suc)
  ultimately have "r = [\<lparr>name = ''alice.tez'', expires = ''2026-11-09T10:15:00Z''\<rparr>,
      \<lparr>name = ''bob.tez'', expires = ''2026-11-08T23:59:59Z''\<rparr>]"
    by simp
  with h n r show ?thesis by simp
qed

subsection \<open>A failing query\<close>

text \<open>
  Claim C3 says that after a fetch whose query fails the list of domains is empty. That
  holds for \<open>refresh\<close> only: a failing query in \<open>fetchNext\<close> appends the empty result
  to the list, which stays as it was. Here the list of one domain survives.
\<close>

theorem failed_fetchNext_keeps_list_counterexample:
  "failing_client (issued_query example_now (Some ''c2'')) = Rejects (QueryError ''Failed to fetch'')
   \<and> domains (snd (fetchNext failing_client example_now paged_state)) =
       Some [\<lparr>name = ''zed.tez'', expires = ''2026-11-10T08:00:00Z''\<rparr>]
   \<and> domains (snd (fetchNext failing_client example_now paged_state)) \<noteq> Some []"
  by (simp add: fetchNext_def fetchData_def getDomains_def failing_client_def paged_state_def
      Let_def)

text \<open>
  Claim C3, amended. When the query rejects with \<open>e\<close>, \<open>fetchData\<close> logs \<open>e\<close> on the
  console after its loading line, returns the empty list and changes nothing else but the
  record of the query sent; its result type has no failure. After \<open>refresh\<close> the list of
  domains is then empty; after \<open>fetchNext\<close> it is the list as it was, and \<open>fetchNext\<close>
  fulfils whenever the list was defined.
\<close>

theorem failing_query_handled:
  "(q (issued_query now aft) = Rejects e \<longrightarrow>
      fetchData q now aft s =
        (Some [],
         s\<lparr>console := console s @ [ConsoleLog ''loading....'' aft, ConsoleError e],
           requests := requests s @ [issued_query now aft]\<rparr>)) \<and>
   (q (issued_query now None) = Rejects e \<longrightarrow> domains (refresh q now s) = Some []) \<and>
   (\<forall>p. pageInfo s = Some p \<and> hasNextPage p \<and>
        q (issued_query now (Some (endCursor p))) = Rejects e \<longrightarrow>
      domains (snd (fetchNext q now s)) = domains s \<and>
      (domains s \<noteq> None \<longrightarrow> fst (fetchNext q now s) = Fulfilled))"
proof (intro conjI allI impI)
  assume "q (issued_query now aft) = Rejects e"
  then show "fetchData q now aft s =
        (Some [],
         s\<lparr>console := console s @ [ConsoleLog ''loading....'' aft, ConsoleError e],
           requests := requests s @ [issued_query now aft]\<rparr>)"
    by (rule fetchData_Rejects)
next
  assume "q (issued_query now None) = Rejects e"
  then show "domains (refresh q now s) = Some []"
    by (simp add: refresh_unfold fetchData_Rejects)
next
  fix p
  assume h: "pageInfo s = Some p \<and> hasNextPage p \<and>
    q (issued_query now (Some (endCursor p))) = Rejects e"
  then show "domains (snd (fetchNext q now s)) = domains s"
    by (cases "domains s") (simp_all add: fetchNext_unfold fetchData_Rejects)
  assume "domains s \<noteq> None"
  with h show "fst (fetchNext q now s) = Fulfilled"
    by (cases "domains s") (simp_all add: fetchNext_unfold fetchData_Rejects)
qed

text \<open>The amended statement at the server that is down.\<close>

theorem failing_query_handled_witness:
  "failing_client (issued_query example_now None) = Rejects (QueryError ''Failed to fetch'') \<and>
   fst (fetchData failing_client example_now None paged_state) = Some [] \<and>
   console (snd (fetchData failing_client example_now None paged_state)) =
     [ConsoleLog ''loading....'' None, ConsoleError (QueryError ''Failed to fetch'')] \<and>
   domains (refresh failing_client example_now paged_state) = Some [] \<and>
   domains (snd (fetchNext failing_client example_now paged_state)) = domains paged_state \<and>
   fst (fetchNext failing_client example_now paged_state) = Fulfilled"
  using failing_query_handled [of failing_client example_now None
      "QueryError ''Failed to fetch''" paged_state]
    failing_query_handled [of failing_client example_now "Some ''c2''"
      "QueryError ''Failed to fetch''" paged_state]
  by (simp add: failing_client_def paged_state_def)

subsection \<open>The page cursor\<close>

lemma fetchNext_pageInfo_data:
  assumes "pageInfo s = Some p" "hasNextPage p"
    and "q (issued_query now (Some (endCursor p))) = Resolves (Some d)"
  shows "pageInfo (snd (fetchNext q now s)) = Some (DomainConnection.pageInfo d)"
  using assms
  by (cases "domains s") (simp_all add: fetchNext_unfold fetchData_Resolves_Some)

lemma fetchNext_pageInfo_rejected:
  assumes "pageInfo s = Some p"
    and "q (issued_query now (Some (endCursor p))) = Rejects e"
  shows "pageInfo (snd (fetchNext q now s)) = pageInfo s"
proof (cases "hasNextPage p")
  case True
  with assms show ?thesis
    by (cases "domains s") (simp_all add: fetchNext_unfold fetchData_Rejects)
next
  case False
  with assms show ?thesis by (simp add: fetchNext_stops)
qed

text \<open>
  Claim C7 says that every fetch replaces the cursor state. A fetch whose query fails does
  not: the cursor \<open>c1\<close>, \<open>c2\<close> of the state is still there afterwards.
\<close>

theorem failed_fetch_cursor_survives_counterexample:
  "failing_client (issued_query example_now None) = Rejects (QueryError ''Failed to fetch'')
   \<and> pageInfo (snd (fetchData failing_client example_now None paged_state)) =
       Some \<lparr>startCursor = ''c1'', endCursor = ''c2'', hasNextPage = True, hasPreviousPage = False\<rparr>"
  by (simp add: fetchData_def getDomains_def failing_client_def paged_state_def Let_def)

text \<open>
  Claim C7, amended. A fetch whose query resolves with data sets the cursor state to the
  page information of that response, whatever it was before: so after \<open>fetchData\<close>,
  after \<open>refresh\<close> and after a \<open>fetchNext\<close> that had a next page to ask for. A fetch
  whose query fails leaves the cursor state as it was, after each of the three. The cursor
  state is not read by \<open>fetchData\<close>: its result and the query it sends do not depend on
  it. \<open>fetchNext\<close> reads only \<open>hasNextPage\<close> and \<open>endCursor\<close>: two cursor states that
  agree on these give the same completion, the same list and the same queries.
\<close>

theorem cursor_replaced_by_response:
  "(q (issued_query now aft) = Resolves (Some d) \<longrightarrow>
      pageInfo (snd (fetchData q now aft s)) = Some (DomainConnection.pageInfo d)) \<and>
   fst (fetchData q now aft (s\<lparr>pageInfo := x\<rparr>)) = fst (fetchData q now aft s) \<and>
   requests (snd (fetchData q now aft (s\<lparr>pageInfo := x\<rparr>))) =
     requests (snd (fetchData q now aft s)) \<and>
   (\<forall>p p'. hasNextPage p = hasNextPage p' \<and> endCursor p = endCursor p' \<longrightarrow>
      fst (fetchNext q now (s\<lparr>pageInfo := Some p\<rparr>)) =
        fst (fetchNext q now (s\<lparr>pageInfo := Some p'\<rparr>)) \<and>
      domains (snd (fetchNext q now (s\<lparr>pageInfo := Some p\<rparr>))) =
        domains (snd (fetchNext q now (s\<lparr>pageInfo := Some p'\<rparr>))) \<and>
      requests (snd (fetchNext q now (s\<lparr>pageInfo := Some p\<rparr>))) =
        requests (snd (fetchNext q now (s\<lparr>pageInfo := Some p'\<rparr>)))) \<and>
   (q (issued_query now None) = Resolves (Some d) \<longrightarrow>
      pageInfo (refresh q now s) = Some (DomainConnection.pageInfo d)) \<and>
   (\<forall>p. pageInfo s = Some p \<and> hasNextPage p \<and>
        q (issued_query now (Some (endCursor p))) = Resolves (Some d) \<longrightarrow>
      pageInfo (snd (fetchNext q now s)) = Some (DomainConnection.pageInfo d)) \<and>
   (q (issued_query now aft) = Rejects e \<longrightarrow>
      pageInfo (snd (fetchData q now aft s)) = pageInfo s) \<and>
   (q (issued_query now None) = Rejects e \<longrightarrow> pageInfo (refresh q now s) = pageInfo s) \<and>
   (\<forall>p. pageInfo s = Some p \<and> q (issued_query now (Some (endCursor p))) = Rejects e \<longrightarrow>
      pageInfo (snd (fetchNext q now s)) = pageInfo s)"
proof (intro conjI allI impI)
  assume "q (issued_query now aft) = Resolves (Some d)"
  then show "pageInfo (snd (fetchData q now aft s)) = Some (DomainConnection.pageInfo d)"
    by (simp add: fetchData_Resolves_Some)
next
  assume "q (issued_query now None) = Resolves (Some d)"
  then show "pageInfo (refresh q now s) = Some (DomainConnection.pageInfo d)"
    by (simp add: refresh_unfold fetchData_Resolves_Some)
next
  fix p
  assume "pageInfo s = Some p \<and> hasNextPage p \<and>
        q (issued_query now (Some (endCursor p))) = Resolves (Some d)"
  then show "pageInfo (snd (fetchNext q now s)) = Some (DomainConnection.pageInfo d)"
    by (simp add: fetchNext_pageInfo_data)
next
  assume "q (issued_query now aft) = Rejects e"
  then show "pageInfo (snd (fetchData q now aft s)) = pageInfo s"
    by (simp add: fetchData_Rejects)
next
  assume "q (issued_query now None) = Rejects e"
  then show "pageInfo (refresh q now s) = pageInfo s"
    by (simp add: refresh_unfold fetchData_Rejects)
next
  fix p
  assume "pageInfo s = Some p \<and> q (issued_query now (Some (endCursor p))) = Rejects e"
  then show "pageInfo (snd (fetchNext q now s)) = pageInfo s"
    by (elim conjE) (rule fetchNext_pageInfo_rejected)
next
  show "fst (fetchData q now aft (s\<lparr>pageInfo := x\<rparr>)) = fst (fetchData q now aft s)"
    by (rule fetchData_ignores_state)
  show "requests (snd (fetchData q now aft (s\<lparr>pageInfo := x\<rparr>))) =
     requests (snd (fetchData q now aft s))"
    by (simp add: fetchData_requests)
next
  fix p p' :: Page
  assume h: "hasNextPage p = hasNextPage p' \<and> endCursor p = endCursor p'"
  let ?s = "s\<lparr>pageInfo := Some p\<rparr>" and ?s' = "s\<lparr>pageInfo := Some p'\<rparr>"
  have i: "fst (fetchData q now (Some (endCursor p')) ?s) =
      fst (fetchData q now (Some (endCursor p')) ?s')"
    by (rule fetchData_ignores_state)
  have r: "requests (snd (fetchData q now (Some (endCursor p')) ?s)) =
      requests (snd (fetchData q now (Some (endCursor p')) ?s'))"
    by (simp add: fetchData_requests)
  show "fst (fetchNext q now ?s) = fst (fetchNext q now ?s')"
  proof (cases "hasNextPage p'")
    case True
    with h i show ?thesis
      by (simp add: fetchNext_unfold [of _ p] fetchNext_unfold [of _ p']
          split: option.split)
  next
    case False
    with h show ?thesis by (simp add: fetchNext_stops)
  qed
  show "domains (snd (fetchNext q now ?s)) = domains (snd (fetchNext q now ?s'))"
  proof (cases "hasNextPage p'")
    case True
    with h i show ?thesis
      by (simp add: fetchNext_unfold [of _ p] fetchNext_unfold [of _ p'] fetchData_domains
          split: option.split)
  next
    case False
    with h show ?thesis by (simp add: fetchNext_stops)
  qed
  show "requests (snd (fetchNext q now ?s)) = requests (snd (fetchNext q now ?s'))"
  proof (cases "hasNextPage p'")
    case True
    with h i r show ?thesis
      by (simp add: fetchNext_unfold [of _ p] fetchNext_unfold [of _ p'] fetchData_requests
          split: option.split)
  next
    case False
    with h show ?thesis by (simp add: fetchNext_stops)
  qed
qed

text \<open>
  The amended statement at the example response, at two cursors that differ elsewhere, and
  at the server that is down.
\<close>

theorem cursor_replaced_by_response_witness:
  "serving_client (issued_query example_now (Some ''c2'')) = Resolves (Some example_response) \<and>
   pageInfo (snd (fetchData serving_client example_now (Some ''c2'') paged_state)) =
     Some \<lparr>startCursor = ''c3'', endCursor = ''c4'', hasNextPage = False, hasPreviousPage = True\<rparr> \<and>
   pageInfo (refresh serving_client example_now paged_state) =
     Some \<lparr>startCursor = ''c3'', endCursor = ''c4'', hasNextPage = False, hasPreviousPage = True\<rparr> \<and>
   pageInfo (snd (fetchNext serving_client example_now paged_state)) =
     Some \<lparr>startCursor = ''c3'', endCursor = ''c4'', hasNextPage = False, hasPreviousPage = True\<rparr> \<and>
   fst (fetchNext serving_client example_now
         (paged_state\<lparr>pageInfo := Some \<lparr>startCursor = ''c1'', endCursor = ''c2'',
            hasNextPage = True, hasPreviousPage = False\<rparr>\<rparr>)) =
   fst (fetchNext serving_client example_now
         (paged_state\<lparr>pageInfo := Some \<lparr>startCursor = ''other'', endCursor = ''c2'',
            hasNextPage = True, hasPreviousPage = True\<rparr>\<rparr>)) \<and>
   failing_client (issued_query example_now (Some ''c2'')) = Rejects (QueryError ''Failed to fetch'') \<and>
   pageInfo (snd (fetchData failing_client example_now (Some ''c2'') paged_state)) =
     Some \<lparr>startCursor = ''c1'', endCursor = ''c2'', hasNextPage = True, hasPreviousPage = False\<rparr> \<and>
   pageInfo (refresh failing_client example_now paged_state) =
     Some \<lparr>startCursor = ''c1'', endCursor = ''c2'', hasNextPage = True, hasPreviousPage = False\<rparr> \<and>
   pageInfo (snd (fetchNext failing_client example_now paged_state)) =
     Some \<lparr>startCursor = ''c1'', endCursor = ''c2'', hasNextPage = True, hasPreviousPage = False\<rparr>"
proof -
  have served: "serving_client v = Resolves (Some example_response)" for v
    by (simp add: serving_client_def)
  have failed: "failing_client v = Rejects (QueryError ''Failed to fetch'')" for v
    by (simp add: failing_client_def)
  have old: "pageInfo paged_state =
      Some \<lparr>startCursor = ''c1'', endCursor = ''c2'', hasNextPage = True, hasPreviousPage = False\<rparr>"
    by (simp add: paged_state_def)
  have new: "DomainConnection.pageInfo example_response =
      \<lparr>startCursor = ''c3'', endCursor = ''c4'', hasNextPage = False, hasPreviousPage = True\<rparr>"
    by (simp add: example_response_def)
  have a: "pageInfo (snd (fetchData serving_client example_now (Some ''c2'') paged_state)) =
        Some (DomainConnection.pageInfo example_response)
      \<and> pageInfo (refresh serving_client example_now paged_state) =
        Some (DomainConnection.pageInfo example_response)
      \<and> pageInfo (snd (fetchNext serving_client example_now paged_state)) =
        Some (DomainConnection.pageInfo example_response)
      \<and> fst (fetchNext serving_client example_now
         (paged_state\<lparr>pageInfo := Some \<lparr>startCursor = ''c1'', endCursor = ''c2'',
            hasNextPage = True, hasPreviousPage = False\<rparr>\<rparr>)) =
        fst (fetchNext serving_client example_now
         (paged_state\<lparr>pageInfo := Some \<lparr>startCursor = ''other'', endCursor = ''c2'',
            hasNextPage = True, hasPreviousPage = True\<rparr>\<rparr>))"
    using cursor_replaced_by_response [where q = serving_client and now = example_now
        and aft = "Some ''c2''" and d = example_response and s = paged_state] served old
    by simp
  have b: "pageInfo (snd (fetchData failing_client example_now (Some ''c2'') paged_state)) =
        pageInfo paged_state
      \<and> pageInfo (refresh failing_client example_now paged_state) = pageInfo paged_state
      \<and> pageInfo (snd (fetchNext failing_client example_now paged_state)) = pageInfo paged_state"
    using cursor_replaced_by_response [where q = failing_client and now = example_now
        and aft = "Some ''c2''" and e = "QueryError ''Failed to fetch''" and s = paged_state]
      failed old
    by simp
  show ?thesis
    using a b served failed unfolding old new by simp
qed

text \<open>
  Claim C8. When the query rejects, the cursor state after \<open>fetchData\<close>, after
  \<open>refresh\<close> and after \<open>fetchNext\<close> is the cursor state before.
\<close>

theorem failed_fetch_keeps_cursor:
  "(q (issued_query now aft) = Rejects e \<longrightarrow>
      pageInfo (snd (fetchData q now aft s)) = pageInfo s) \<and>
   (q (issued_query now None) = Rejects e \<longrightarrow> pageInfo (refresh q now s) = pageInfo s) \<and>
   (\<forall>p. pageInfo s = Some p \<and> q (issued_query now (Some (endCursor p))) = Rejects e \<longrightarrow>
      pageInfo (snd (fetchNext q now s)) = pageInfo s)"
proof (intro conjI allI impI)
  assume "q (issued_query now aft) = Rejects e"
  then show "pageInfo (snd (fetchData q now aft s)) = pageInfo s"
    by (simp add: fetchData_Rejects)
next
  assume "q (issued_query now None) = Rejects e"
  then show "pageInfo (refresh q now s) = pageInfo s"
    by (simp add: refresh_unfold fetchData_Rejects)
next
  fix p
  assume h: "pageInfo s = Some p \<and> q (issued_query now (Some (endCursor p))) = Rejects e"
  show "pageInfo (snd (fetchNext q now s)) = pageInfo s"
  proof (cases "hasNextPage p")
    case True
    with h show ?thesis
      by (cases "domains s") (simp_all add: fetchNext_unfold fetchData_Rejects)
  next
    case False
    with h show ?thesis by (simp add: fetchNext_stops)
  qed
qed

text \<open>The statement at the server that is down.\<close>

theorem failed_fetch_keeps_cursor_witness:
  "failing_client (issued_query example_now (Some ''c2'')) = Rejects (QueryError ''Failed to fetch'') \<and>
   pageInfo (snd (fetchData failing_client example_now (Some ''c2'') paged_state)) =
     pageInfo paged_state \<and>
   pageInfo (refresh failing_client example_now paged_state) = pageInfo paged_state \<and>
   pageInfo (snd (fetchNext failing_client example_now paged_state)) = pageInfo paged_state \<and>
   pageInfo paged_state =
     Some \<lparr>startCursor = ''c1'', endCursor = ''c2'', hasNextPage = True, hasPreviousPage = False\<rparr>"
  using failed_fetch_keeps_cursor [of failing_client example_now "Some ''c2''"
      "QueryError ''Failed to fetch''" paged_state]
    failed_fetch_keeps_cursor [of failing_client example_now None
      "QueryError ''Failed to fetch''" paged_state]
  by (simp add: failing_client_def paged_state_def)

subsection \<open>Refreshing\<close>

lemma fetchData_pageInfo_twice:
  "pageInfo (snd (fetchData q now aft (snd (fetchData q now aft s)))) =
   pageInfo (snd (fetchData q now aft s))"
  by (cases q now aft rule: outcome_cases)
     (simp_all add: fetchData_Resolves_Some fetchData_Resolves_None fetchData_Rejects)

lemma fetchData_pageInfo_frame:
  "pageInfo (snd (fetchData q now aft (s\<lparr>domains := ds\<rparr>))) =
   pageInfo (snd (fetchData q now aft s))"
  by (cases q now aft rule: outcome_cases)
     (simp_all add: fetchData_Resolves_Some fetchData_Resolves_None fetchData_Rejects)

text \<open>
  Claim C10. After \<open>refresh\<close> the list of domains is the result of a fetch sent with no
  \<open>after\<close> cursor; it does not depend on the list before. With the same server answers and
  the same clock reading, a second \<open>refresh\<close> gives the same list and the same cursor
  state as the first.
\<close>

theorem refresh_replaces_list:
  "domains (refresh q now s) = fst (fetchData q now None s) \<and>
   requests (refresh q now s) = requests s @ [issued_query now None] \<and>
   after (issued_query now None) = None \<and>
   domains (refresh q now (s\<lparr>domains := ds\<rparr>)) = domains (refresh q now s) \<and>
   domains (refresh q now (refresh q now s)) = domains (refresh q now s) \<and>
   pageInfo (refresh q now (refresh q now s)) = pageInfo (refresh q now s)"
proof (intro conjI)
  show "domains (refresh q now s) = fst (fetchData q now None s)"
    by (simp add: refresh_unfold)
  show "requests (refresh q now s) = requests s @ [issued_query now None]"
    by (simp add: refresh_unfold fetchData_requests)
  show "after (issued_query now None) = None"
    by (simp add: issued_query_def variables_def)
  show "domains (refresh q now (s\<lparr>domains := ds\<rparr>)) = domains (refresh q now s)"
    using fetchData_ignores_state [where s = "s\<lparr>domains := ds\<rparr>" and s' = s
        and q = q and now = now and aft = None]
    by (simp add: refresh_unfold)
  show "domains (refresh q now (refresh q now s)) = domains (refresh q now s)"
    using fetchData_ignores_state [of q now None "refresh q now s" s]
    by (simp add: refresh_unfold)
  show "pageInfo (refresh q now (refresh q now s)) = pageInfo (refresh q now s)"
    using fetchData_pageInfo_frame [where s = "snd (fetchData q now None s)"
        and ds = "fst (fetchData q now None s)" and q = q and now = now and aft = None]
    by (simp add: refresh_unfold fetchData_pageInfo_twice)
qed

text \<open>The statement at the example response, from a state that held another list.\<close>

theorem refresh_replaces_list_witness:
  "domains (refresh serving_client example_now paged_state) =
     Some [\<lparr>name = ''alice.tez'', expires = ''2026-11-09T10:15:00Z''\<rparr>,
           \<lparr>name = ''bob.tez'', expires = ''2026-11-08T23:59:59Z''\<rparr>] \<and>
   domains (refresh serving_client example_now (refresh serving_client example_now paged_state)) =
     domains (refresh serving_client example_now paged_state) \<and>
   pageInfo (refresh serving_client example_now (refresh serving_client example_now paged_state)) =
     pageInfo (refresh serving_client example_now paged_state)"
proof -
  have "fst (fetchData serving_client example_now None paged_state) =
     Some [\<lparr>name = ''alice.tez'', expires = ''2026-11-09T10:15:00Z''\<rparr>,
           \<lparr>name = ''bob.tez'', expires = ''2026-11-08T23:59:59Z''\<rparr>]"
    by (simp add: fetchData_def getDomains_def serving_client_def example_response_def
        example_node_1_def example_node_2_def Let_def)
  then show ?thesis
    using refresh_replaces_list [of serving_client example_now paged_state] by simp
qed

subsection \<open>The query sent\<close>

text \<open>
  Claim C5. \<open>getDomains\<close> sends one query, whose variables are its \<open>after\<close> argument,
  \<open>first = 50\<close>, validity \<open>EXPIRED\<close>, level equal to 2, expiry greater than its start date
  and less than its end date, ordered by \<open>EXPIRES_AT\<close> descending. \<open>fetchData\<close> passes
  midnight of today minus 7 days and minus 5 days; \<open>refresh\<close> sends no cursor and
  \<open>fetchNext\<close> sends the end cursor of the page it holds. The two dates are 7 and 5 times
  86400000 milliseconds before the midnight that began today.
\<close>

theorem issued_query_parameters:
  "requests (snd (getDomains q startDate endDate aft s)) =
     requests s @
       [\<lparr>after = aft, first = 50, where_validity = ''EXPIRED'', where_level_equalTo = 2,
         where_expiresAtUtc_greaterThan = startDate, where_expiresAtUtc_lessThan = endDate,
         order_field = ''EXPIRES_AT'', order_direction = ''DESC''\<rparr>] \<and>
   issued_query now aft =
     \<lparr>after = aft, first = 50, where_validity = ''EXPIRED'', where_level_equalTo = 2,
      where_expiresAtUtc_greaterThan = subtract_days (startOfDay now) 7,
      where_expiresAtUtc_lessThan = subtract_days (startOfDay now) 5,
      order_field = ''EXPIRES_AT'', order_direction = ''DESC''\<rparr> \<and>
   requests (snd (fetchData q now aft s)) = requests s @ [issued_query now aft] \<and>
   requests (refresh q now s) = requests s @ [issued_query now None] \<and>
   (\<forall>p. pageInfo s = Some p \<and> hasNextPage p \<longrightarrow>
      requests (snd (fetchNext q now s)) = requests s @ [issued_query now (Some (endCursor p))]) \<and>
   (valid_moment now \<longrightarrow>
      valueOf (subtract_days (startOfDay now) 7) = valueOf now - time_ms now - 7 * 86400000 \<and>
      valueOf (subtract_days (startOfDay now) 5) = valueOf now - time_ms now - 5 * 86400000)"
proof (intro conjI allI impI)
  show "requests (snd (getDomains q startDate endDate aft s)) =
     requests s @
       [\<lparr>after = aft, first = 50, where_validity = ''EXPIRED'', where_level_equalTo = 2,
         where_expiresAtUtc_greaterThan = startDate, where_expiresAtUtc_lessThan = endDate,
         order_field = ''EXPIRES_AT'', order_direction = ''DESC''\<rparr>]"
    by (simp add: getDomains_def variables_def Let_def)
  show "issued_query now aft =
     \<lparr>after = aft, first = 50, where_validity = ''EXPIRED'', where_level_equalTo = 2,
      where_expiresAtUtc_greaterThan = subtract_days (startOfDay now) 7,
      where_expiresAtUtc_lessThan = subtract_days (startOfDay now) 5,
      order_field = ''EXPIRES_AT'', order_direction = ''DESC''\<rparr>"
    by (simp add: issued_query_def variables_def)
  show "requests (snd (fetchData q now aft s)) = requests s @ [issued_query now aft]"
    by (rule fetchData_requests)
  show "requests (refresh q now s) = requests s @ [issued_query now None]"
    by (simp add: refresh_unfold fetchData_requests)
next
  fix p assume "pageInfo s = Some p \<and> hasNextPage p"
  then show "requests (snd (fetchNext q now s)) =
      requests s @ [issued_query now (Some (endCursor p))]"
    by (simp add: fetchNext_unfold fetchData_requests split: option.split)
next
  assume v: "valid_moment now"
  show "valueOf (subtract_days (startOfDay now) 7) = valueOf now - time_ms now - 7 * 86400000"
    using subtract_days_valueOf [OF startOfDay_valueOf(1) [OF v], of 7] startOfDay_valueOf(2) [OF v]
    by simp
  show "valueOf (subtract_days (startOfDay now) 5) = valueOf now - time_ms now - 5 * 86400000"
    using subtract_days_valueOf [OF startOfDay_valueOf(1) [OF v], of 5] startOfDay_valueOf(2) [OF v]
    by simp
qed

text \<open>The query of \<open>fetchNext\<close> on 15 November 2026: the window runs from 8 to 10 November.\<close>

theorem issued_query_parameters_witness:
  "valid_moment example_now \<and>
   requests (snd (fetchNext serving_client example_now paged_state)) =
     [\<lparr>after = Some ''c2'', first = 50, where_validity = ''EXPIRED'', where_level_equalTo = 2,
       where_expiresAtUtc_greaterThan = \<lparr>year = 2026, month = 10, date = 8, time_ms = 0\<rparr>,
       where_expiresAtUtc_lessThan = \<lparr>year = 2026, month = 10, date = 10, time_ms = 0\<rparr>,
       order_field = ''EXPIRES_AT'', order_direction = ''DESC''\<rparr>] \<and>
   valueOf \<lparr>year = 2026, month = 10, date = 8, time_ms = 0\<rparr> =
     valueOf example_now - 43200000 - 7 * 86400000"
proof -
  have v: "valid_moment example_now"
    by (simp add: valid_moment_def example_now_def daysInMonth_def)
  have s7: "subtract_days (startOfDay example_now) 7 = \<lparr>year = 2026, month = 10, date = 8, time_ms = 0\<rparr>"
    by (simp add: eval_nat_numeral startOfDay_def example_now_def prev_day_def)
  have s5: "subtract_days (startOfDay example_now) 5 = \<lparr>year = 2026, month = 10, date = 10, time_ms = 0\<rparr>"
    by (simp add: eval_nat_numeral startOfDay_def example_now_def prev_day_def)
  have t: "time_ms example_now = 43200000" by (simp add: example_now_def)
  show ?thesis
    using v issued_query_parameters [of serving_client example_now example_now "Some ''c2''"
        paged_state example_now]
    unfolding s7 s5 t
    by (simp add: paged_state_def)
qed

section \<open>Properties of the formatter\<close>

lemma expiredAt_with_selected:
  "expiredAt_with d =
     (case selected_unit d of
        None \<Rightarrow> ''expired just now''
      | Some u \<Rightarrow> ''expired '' @ toString (d u) @ '' '' @ printed_label u @ '' ago'')"
  by (simp add: expiredAt_with_def selected_unit_def printed_label_def Let_def)





lemma diff_years_back:
  assumes "0 \<le> k"
  shows "diff now (Some (add_months now (- k))) Years = Num (k div 12)"
  using absFloor_quotient [OF assms, of 12]
  by (simp add: diff_def monthDiff_add_months)

lemma find_holds: "find P xs = Some x \<Longrightarrow> P x"
  by (induction xs) (auto split: if_splits)

lemma example_now_valid: "valid_moment example_now"
  by (simp add: valid_moment_def example_now_def daysInMonth_def)






subsection \<open>The unit the formatter selects\<close>




subsection \<open>The label of the years branch\<close>

text \<open>
  Claim C6. When the difference in years is \<open>n\<close> with \<open>n\<close> at least 1, \<open>expiredAt\<close>
  returns \<open>expired n months ago\<close>: the count of whole years with the word \<open>months\<close>. An
  expiry \<open>k\<close> calendar months back, \<open>k\<close> at least 12, has \<open>k div 12\<close> whole years.
\<close>

theorem expiredAt_years_labelled_months:
  "(\<forall>n. diff now (parse expiry) Years = Num n \<and> 1 \<le> n \<longrightarrow>
      expiredAt parse now expiry = ''expired '' @ digits (nat n) @ '' months ago'') \<and>
   (\<forall>k. 12 \<le> k \<and> parse expiry = Some (add_months now (- k)) \<longrightarrow>
      diff now (parse expiry) Years = Num (k div 12) \<and>
      expiredAt parse now expiry = ''expired '' @ digits (nat (k div 12)) @ '' months ago'')"
proof (intro conjI allI impI)
  fix n assume "diff now (parse expiry) Years = Num n \<and> 1 \<le> n"
  then show "expiredAt parse now expiry = ''expired '' @ digits (nat n) @ '' months ago''"
    by (simp add: expiredAt_def expiredAt_with_def Let_def ge1_def toString_def)
next
  fix k assume h: "12 \<le> k \<and> parse expiry = Some (add_months now (- k))"
  then have y: "diff now (parse expiry) Years = Num (k div 12)"
    using diff_years_back [of k now] by simp
  moreover have "1 \<le> k div 12" using h zdiv_mono1 [of 12 k 12] by simp
  ultimately show "diff now (parse expiry) Years = Num (k div 12)"
    and "expiredAt parse now expiry = ''expired '' @ digits (nat (k div 12)) @ '' months ago''"
    by (simp_all add: expiredAt_def expiredAt_with_def Let_def ge1_def toString_def)
qed

text \<open>Thirty months back: two years, printed as two months.\<close>

theorem expiredAt_years_labelled_months_witness:
  "diff example_now (parses_as (add_months example_now (- 30)) ''2024-05-15T12:00:00'') Years = Num 2 \<and>
   expiredAt (parses_as (add_months example_now (- 30))) example_now ''2024-05-15T12:00:00''
     = ''expired 2 months ago''"
  using expiredAt_years_labelled_months [of example_now
      "parses_as (add_months example_now (- 30))" "''2024-05-15T12:00:00''"]
  by (simp add: parses_as_def digits.simps)

subsection \<open>Totality and the last branch\<close>

text \<open>
  Claim C9. \<open>expiredAt\<close> returns a string for every input: \<open>expired just now\<close>, or a
  count of at least 1 with the word of a unit. It returns \<open>expired just now\<close> when the
  date string does not parse, and when the expiry is now, in the future, or less than one
  second ago: then none of the six threshold tests succeeds.
\<close>

theorem expiredAt_total_just_now:
  "(expiredAt parse now expiry = ''expired just now'' \<or>
    (\<exists>u n. diff now (parse expiry) u = Num n \<and> 1 \<le> n \<and>
       expiredAt parse now expiry =
         ''expired '' @ digits (nat n) @ '' '' @ printed_label u @ '' ago'')) \<and>
   (parse expiry = None \<longrightarrow> expiredAt parse now expiry = ''expired just now'') \<and>
   (valid_moment now \<and> valid_moment e \<and> parse expiry = Some e \<and>
      valueOf now - valueOf e < 1000 \<longrightarrow>
        (\<forall>u. \<not> ge1 (diff now (parse expiry) u)) \<and>
        expiredAt parse now expiry = ''expired just now'')"
proof (intro conjI impI)
  show "expiredAt parse now expiry = ''expired just now'' \<or>
    (\<exists>u n. diff now (parse expiry) u = Num n \<and> 1 \<le> n \<and>
       expiredAt parse now expiry =
         ''expired '' @ digits (nat n) @ '' '' @ printed_label u @ '' ago'')"
  proof (cases "selected_unit (diff now (parse expiry))")
    case None
    then show ?thesis by (simp add: expiredAt_def expiredAt_with_selected)
  next
    case (Some u)
    then have "ge1 (diff now (parse expiry) u)"
      unfolding selected_unit_def by (rule find_holds)
    then obtain n where n: "diff now (parse expiry) u = Num n" "1 \<le> n"
      by (cases "diff now (parse expiry) u") (simp_all add: ge1_def)
    then have "expiredAt parse now expiry =
        ''expired '' @ digits (nat n) @ '' '' @ printed_label u @ '' ago''"
      using Some by (simp add: expiredAt_def expiredAt_with_selected toString_def)
    with n show ?thesis by blast
  qed
next
  assume "parse expiry = None"
  then show "expiredAt parse now expiry = ''expired just now''"
    by (simp add: expiredAt_def expiredAt_with_def Let_def ge1_diff_None)
next
  assume h: "valid_moment now \<and> valid_moment e \<and> parse expiry = Some e \<and>
      valueOf now - valueOf e < 1000"
  then have "monthDiff now e < 1" by (intro monthDiff_lt_1) simp_all
  then have n: "\<not> ge1 (diff now (Some e) u)" for u
    using h by (cases u)
      (simp_all add: ge1_diff_Years ge1_diff_Months ge1_diff_Days ge1_diff_Hours
        ge1_diff_Minutes ge1_diff_Seconds)
  show "\<forall>u. \<not> ge1 (diff now (parse expiry) u)" using h n by simp
  show "expiredAt parse now expiry = ''expired just now''"
    using h n by (simp add: expiredAt_def expiredAt_with_def Let_def)
qed

text \<open>An expiry equal to now, one a day ahead, and a string that is no date.\<close>

theorem expiredAt_total_just_now_witness:
  "valid_moment example_now \<and> valid_moment (example_now\<lparr>date := 16\<rparr>) \<and>
   valueOf example_now - valueOf example_now < 1000 \<and>
   valueOf example_now - valueOf (example_now\<lparr>date := 16\<rparr>) < 1000 \<and>
   expiredAt (parses_as example_now) example_now ''2026-11-15T12:00:00'' = ''expired just now'' \<and>
   expiredAt (parses_as (example_now\<lparr>date := 16\<rparr>)) example_now ''2026-11-16T12:00:00''
     = ''expired just now'' \<and>
   expiredAt parses_nothing example_now ''soon'' = ''expired just now''"
proof -
  have v: "valid_moment (example_now\<lparr>date := 16\<rparr>)"
    by (simp add: valid_moment_def example_now_def daysInMonth_def)
  have a: "valueOf example_now - valueOf (example_now\<lparr>date := 16\<rparr>) < 1000"
    by (simp add: valueOf_def month_index_def example_now_def)
  show ?thesis
    using example_now_valid v a
      expiredAt_total_just_now [of "parses_as example_now" example_now
        "''2026-11-15T12:00:00''" example_now]
      expiredAt_total_just_now [of "parses_as (example_now\<lparr>date := 16\<rparr>)" example_now
        "''2026-11-16T12:00:00''" "example_now\<lparr>date := 16\<rparr>"]
      expiredAt_total_just_now [of parses_nothing example_now "''soon''" example_now]
    by (simp add: parses_as_def parses_nothing_def)
qed

end
